theory Spec2Isabelle
  imports Main
begin

section \<open>Data model\<close>

text \<open>
  Modelled from the spec: \<^verbatim>\<open>blog/models.py\<close> is not among the sources, so the four
  tables are taken from the data model of the specification and from the attribute
  names that \<^verbatim>\<open>views.py\<close> reads (\<^verbatim>\<open>id\<close>, \<^verbatim>\<open>pub_date\<close>, \<^verbatim>\<open>is_published\<close>,
  \<^verbatim>\<open>author\<close>, \<^verbatim>\<open>category\<close>, \<^verbatim>\<open>slug\<close>, \<^verbatim>\<open>username\<close>). A foreign key holds the
  primary key of the row it points to. Timestamps are integers (a count of clock
  ticks); \<^verbatim>\<open>timezone.now()\<close> is the parameter \<open>now\<close> of every view that reads the
  clock. Django's \<^verbatim>\<open>id\<close> columns are named per table, and the published flag of
  a category is \<open>c_is_published\<close>, since record fields share one name space.
\<close>

record user =
  user_id :: nat
  username :: string
  email :: string
  first_name :: string
  last_name :: string

record category =
  category_id :: nat
  category_title :: string
  slug :: string
  c_is_published :: bool

record post =
  post_id :: nat
  title :: string
  post_text :: string
  pub_date :: int
  is_published :: bool
  post_image :: "string option"
  author :: nat
  category :: nat

record comments =
  comment_id :: nat
  comment_text :: string
  comment_author :: nat
  comment_post :: nat

record db =
  User_objects :: "user list"
  Category_objects :: "category list"
  Post_objects :: "post list"
  Comments_objects :: "comments list"

section \<open>Requests and responses\<close>

text \<open>
  \<^verbatim>\<open>request.POST\<close> and \<^verbatim>\<open>request.FILES\<close> are lists of key/value pairs;
  \<^verbatim>\<open>request.user\<close> is \<open>None\<close> for the anonymous user; \<^verbatim>\<open>request.GET.get('page')\<close>
  is \<open>None\<close> when the parameter is absent or is not an integer.
\<close>

type_synonym querydict = "(string \<times> string) list"

record request =
  req_user :: "user option"
  req_method :: string
  req_POST :: querydict
  req_FILES :: querydict
  req_page :: "int option"

datatype error = Http404 | DoesNotExist | MultipleObjectsReturned | PageNotAnInteger | EmptyPage

datatype url = post_detail_url nat | profile_url string | login_url

text \<open>
  A model form as its constructor receives it: the bound data, the bound files and
  the instance, each optional.
\<close>

datatype 'a modelform =
  ModelForm (form_data: "querydict option") (form_files: "querydict option")
    (form_instance: "'a option")

text \<open>A row of a post query: the post and the annotations added to it, by name.\<close>

type_synonym row = "post \<times> (string \<times> nat) list"

record paginator =
  object_list :: "row list"
  per_page :: nat

record page =
  page_object_list :: "row list"
  page_number :: int
  page_paginator :: paginator

datatype template_context =
  index_context page
| detail_context post "comments modelform" "comments list"
| category_context category page
| profile_context user page
| post_form_context "post modelform"
| comment_context comments "comments modelform option"

datatype response = Render string template_context | Redirect url

section \<open>The framework primitives the views call\<close>

text \<open>\<^verbatim>\<open>Model.objects.get\<close>: the one row that matches, or an exception.\<close>

definition objects_get :: "'a list \<Rightarrow> ('a \<Rightarrow> bool) \<Rightarrow> error + 'a" where
  "objects_get rows P =
     (case filter P rows of
        [] \<Rightarrow> Inl DoesNotExist
      | [x] \<Rightarrow> Inr x
      | _ \<Rightarrow> Inl MultipleObjectsReturned)"

text \<open>\<^verbatim>\<open>get_object_or_404\<close>: as \<open>objects_get\<close>, with \<open>DoesNotExist\<close> turned into \<open>Http404\<close>.\<close>

definition get_object_or_404 :: "'a list \<Rightarrow> ('a \<Rightarrow> bool) \<Rightarrow> error + 'a" where
  "get_object_or_404 rows P =
     (case objects_get rows P of
        Inl DoesNotExist \<Rightarrow> Inl Http404
      | r \<Rightarrow> r)"

text \<open>\<^verbatim>\<open>post.category\<close>: the category row the foreign key points to.\<close>

definition post_category :: "db \<Rightarrow> post \<Rightarrow> error + category" where
  "post_category d p = objects_get (Category_objects d) (\<lambda>c. category_id c = category p)"

text \<open>\<^verbatim>\<open>post.comments\<close>: the comments whose foreign key points to the post.\<close>

definition post_comments :: "db \<Rightarrow> post \<Rightarrow> comments list" where
  "post_comments d p = filter (\<lambda>c. comment_post c = post_id p) (Comments_objects d)"

text \<open>
  \<^verbatim>\<open>post.author != request.user\<close>: two model instances are equal when their primary
  keys are; the anonymous user equals no user row.
\<close>

definition author_ne_user :: "nat \<Rightarrow> request \<Rightarrow> bool" where
  "author_ne_user a r = (case req_user r of None \<Rightarrow> True | Some u \<Rightarrow> a \<noteq> user_id u)"

subsection \<open>Queries\<close>

text \<open>\<^verbatim>\<open>Post.objects.filter(...)\<close>: the rows of the table that satisfy the condition.\<close>

definition Post_objects_filter :: "db \<Rightarrow> (post \<Rightarrow> bool) \<Rightarrow> row list" where
  "Post_objects_filter d P = map (\<lambda>p. (p, [])) (filter P (Post_objects d))"

text \<open>
  The condition \<^verbatim>\<open>category__is_published=True\<close>: the join with the category table
  has a published row for the post's foreign key.
\<close>

definition category__is_published :: "db \<Rightarrow> post \<Rightarrow> bool" where
  "category__is_published d p =
     list_ex (\<lambda>c. category_id c = category p \<and> c_is_published c) (Category_objects d)"

text \<open>\<^verbatim>\<open>.annotate(name=Count('comments'))\<close>\<close>

definition annotate_Count_comments :: "string \<Rightarrow> db \<Rightarrow> row list \<Rightarrow> row list" where
  "annotate_Count_comments name d rs =
     map (\<lambda>(p, a). (p, a @ [(name, length (post_comments d p))])) rs"

text \<open>
  \<^verbatim>\<open>.order_by('-pub_date')\<close>: descending publish time. The store leaves the order of
  rows with equal publish time open; the model keeps them in table order.
\<close>

definition order_by_minus_pub_date :: "row list \<Rightarrow> row list" where
  "order_by_minus_pub_date rs = sort_key (\<lambda>r. - pub_date (fst r)) rs"

subsection \<open>Paginator\<close>

definition PAGINATOR_PAGES :: nat where
  "PAGINATOR_PAGES = 10"

definition paginator_count :: "paginator \<Rightarrow> nat" where
  "paginator_count pg = length (object_list pg)"

text \<open>\<^verbatim>\<open>ceil(max(1, count) / per_page)\<close>, with no orphans and an empty first page allowed.\<close>

definition num_pages :: "paginator \<Rightarrow> int" where
  "num_pages pg =
     (let hits = max 1 (int (paginator_count pg))
      in - ((- hits) div int (per_page pg)))"

definition validate_number :: "paginator \<Rightarrow> int option \<Rightarrow> error + int" where
  "validate_number pg n =
     (case n of
        None \<Rightarrow> Inl PageNotAnInteger
      | Some k \<Rightarrow>
          if k < 1 then Inl EmptyPage
          else if k > num_pages pg then Inl EmptyPage
          else Inr k)"

text \<open>
  \<^verbatim>\<open>Paginator.page\<close>: the slice \<^verbatim>\<open>object_list[bottom:top]\<close>; \<open>bottom\<close> is never
  negative, since the number has been validated.
\<close>

definition paginator_page :: "paginator \<Rightarrow> int option \<Rightarrow> error + page" where
  "paginator_page pg n =
     (case validate_number pg n of
        Inl e \<Rightarrow> Inl e
      | Inr number \<Rightarrow>
          (let bottom = (number - 1) * int (per_page pg);
               top = bottom + int (per_page pg);
               top = (if top \<ge> int (paginator_count pg) then int (paginator_count pg) else top)
           in Inr \<lparr>page_object_list = take (nat (top - bottom)) (drop (nat bottom) (object_list pg)),
                   page_number = number, page_paginator = pg\<rparr>))"

definition get_page :: "paginator \<Rightarrow> int option \<Rightarrow> error + page" where
  "get_page pg n =
     (case validate_number pg n of
        Inl PageNotAnInteger \<Rightarrow> paginator_page pg (Some 1)
      | Inl EmptyPage \<Rightarrow> paginator_page pg (Some (num_pages pg))
      | Inl e \<Rightarrow> Inl e
      | Inr number \<Rightarrow> paginator_page pg (Some number))"

subsection \<open>Forms\<close>

text \<open>\<^verbatim>\<open>request.POST or None\<close>: an empty dictionary is false.\<close>

definition or_None :: "querydict \<Rightarrow> querydict option" where
  "or_None q = (if q = [] then None else Some q)"

text \<open>\<^verbatim>\<open>QueryDict.get\<close>: the last value submitted under the key.\<close>

definition querydict_get :: "querydict \<Rightarrow> string \<Rightarrow> string option" where
  "querydict_get q k = map_of (rev q) k"

definition is_bound :: "'a modelform \<Rightarrow> bool" where
  "is_bound f = (form_data f \<noteq> None \<or> form_files f \<noteq> None)"

text \<open>
  \<^verbatim>\<open>forms.py\<close>: \<^verbatim>\<open>CommentForm\<close> has the one field \<^verbatim>\<open>text\<close>, and \<^verbatim>\<open>PostForm\<close> has every
  field of the model but \<^verbatim>\<open>author\<close>.
\<close>

definition CommentForm_fields :: "string list" where
  "CommentForm_fields = [''text'']"

definition PostForm_exclude :: "string list" where
  "PostForm_exclude = [''author'']"

text \<open>
  The validators of the model fields are declared in \<^verbatim>\<open>models.py\<close>, which is not among
  the sources, so they are parameters of the views that validate a form:
  \<^item> \<open>clean_text\<close> receives what was submitted for the field \<^verbatim>\<open>text\<close> (\<open>None\<close> when the
    key is absent) and returns the cleaned text, or \<open>None\<close> when it is invalid;
  \<^item> \<open>clean_post\<close> receives the store, the instance being edited, and the submitted data
    and files without the keys of the excluded fields, and returns the cleaned values
    of the fields of the form, or \<open>None\<close> when some field is invalid.
  An unbound form is never valid.
\<close>

record post_form_data =
  f_title :: string
  f_text :: string
  f_pub_date :: int
  f_is_published :: bool
  f_image :: "string option"
  f_category :: nat

type_synonym clean_text = "string option \<Rightarrow> string option"

type_synonym clean_post =
  "db \<Rightarrow> post option \<Rightarrow> querydict \<Rightarrow> querydict \<Rightarrow> post_form_data option"

definition form_querydict :: "querydict option \<Rightarrow> querydict" where
  "form_querydict q = (case q of None \<Rightarrow> [] | Some x \<Rightarrow> x)"

definition without_excluded :: "string list \<Rightarrow> querydict \<Rightarrow> querydict" where
  "without_excluded ex q = filter (\<lambda>kv. fst kv \<notin> set ex) q"

definition only_fields :: "string list \<Rightarrow> querydict \<Rightarrow> querydict" where
  "only_fields fs q = filter (\<lambda>kv. fst kv \<in> set fs) q"

definition CommentForm_cleaned :: "clean_text \<Rightarrow> comments modelform \<Rightarrow> string option" where
  "CommentForm_cleaned clean f =
     (if is_bound f
      then clean (querydict_get (only_fields CommentForm_fields (form_querydict (form_data f))) ''text'')
      else None)"

definition PostForm_cleaned :: "clean_post \<Rightarrow> db \<Rightarrow> post modelform \<Rightarrow> post_form_data option" where
  "PostForm_cleaned clean d f =
     (if is_bound f
      then clean d (form_instance f)
             (without_excluded PostForm_exclude (form_querydict (form_data f)))
             (without_excluded PostForm_exclude (form_querydict (form_files f)))
      else None)"

text \<open>\<^verbatim>\<open>form.save(commit=False)\<close>: the cleaned values written to the fields of the instance.\<close>

definition construct_post :: "post_form_data \<Rightarrow> post \<Rightarrow> post" where
  "construct_post c p =
     p\<lparr>title := f_title c, post_text := f_text c, pub_date := f_pub_date c,
       is_published := f_is_published c, post_image := f_image c, category := f_category c\<rparr>"

subsection \<open>Writing to the store\<close>

text \<open>The primary key of an inserted row: greater than every key of the table.\<close>

definition next_id :: "nat list \<Rightarrow> nat" where
  "next_id ids = Suc (fold max ids 0)"

definition Post_insert :: "db \<Rightarrow> post \<Rightarrow> db" where
  "Post_insert d p =
     d\<lparr>Post_objects := Post_objects d @ [p\<lparr>post_id := next_id (map post_id (Post_objects d))\<rparr>]\<rparr>"

definition Post_update :: "db \<Rightarrow> post \<Rightarrow> db" where
  "Post_update d p =
     d\<lparr>Post_objects := map (\<lambda>q. if post_id q = post_id p then p else q) (Post_objects d)\<rparr>"

text \<open>
  Modelled from the spec: \<^verbatim>\<open>models.py\<close> is not among the sources; the specification
  says that deleting a post deletes its comments.
\<close>

definition Post_delete :: "db \<Rightarrow> post \<Rightarrow> db" where
  "Post_delete d p =
     d\<lparr>Post_objects := filter (\<lambda>q. post_id q \<noteq> post_id p) (Post_objects d),
       Comments_objects := filter (\<lambda>c. comment_post c \<noteq> post_id p) (Comments_objects d)\<rparr>"

definition Comments_insert :: "db \<Rightarrow> comments \<Rightarrow> db" where
  "Comments_insert d c =
     d\<lparr>Comments_objects :=
         Comments_objects d @ [c\<lparr>comment_id := next_id (map comment_id (Comments_objects d))\<rparr>]\<rparr>"

definition Comments_update :: "db \<Rightarrow> comments \<Rightarrow> db" where
  "Comments_update d c =
     d\<lparr>Comments_objects :=
         map (\<lambda>q. if comment_id q = comment_id c then c else q) (Comments_objects d)\<rparr>"

definition Comments_delete :: "db \<Rightarrow> comments \<Rightarrow> db" where
  "Comments_delete d c =
     d\<lparr>Comments_objects := filter (\<lambda>q. comment_id q \<noteq> comment_id c) (Comments_objects d)\<rparr>"

text \<open>\<^verbatim>\<open>request.user == user\<close>\<close>

definition user_eq :: "request \<Rightarrow> user \<Rightarrow> bool" where
  "user_eq r u = (case req_user r of None \<Rightarrow> False | Some v \<Rightarrow> user_id v = user_id u)"


section \<open>Views\<close>

definition post_detail :: "db \<Rightarrow> int \<Rightarrow> request \<Rightarrow> nat \<Rightarrow> error + response" where
  "post_detail d now r i =
     (case get_object_or_404 (Post_objects d) (\<lambda>p. post_id p = i) of
        Inl e \<Rightarrow> Inl e
      | Inr p \<Rightarrow>
          if pub_date p > now \<and> author_ne_user (author p) r then Inl Http404
          else if \<not> is_published p \<and> author_ne_user (author p) r then Inl Http404
          else (case post_category d p of
                  Inl e \<Rightarrow> Inl e
                | Inr c \<Rightarrow>
                    if \<not> c_is_published c \<and> author_ne_user (author p) r then Inl Http404
                    else Inr (Render ''blog/detail.html''
                           (detail_context p (ModelForm None None None) (post_comments d p)))))"

definition index :: "db \<Rightarrow> int \<Rightarrow> request \<Rightarrow> error + response" where
  "index d now r =
     (let posts = order_by_minus_pub_date
                    (annotate_Count_comments ''comment_count'' d
                      (Post_objects_filter d
                        (\<lambda>p. pub_date p \<le> now \<and> is_published p \<and> category__is_published d p)));
          paginator = \<lparr>object_list = posts, per_page = PAGINATOR_PAGES\<rparr>
      in case get_page paginator (req_page r) of
           Inl e \<Rightarrow> Inl e
         | Inr page_obj \<Rightarrow> Inr (Render ''blog/index.html'' (index_context page_obj)))"

definition category_posts :: "db \<Rightarrow> int \<Rightarrow> request \<Rightarrow> string \<Rightarrow> error + response" where
  "category_posts d now r category_slug =
     (case get_object_or_404 (Category_objects d)
             (\<lambda>c. slug c = category_slug \<and> c_is_published c) of
        Inl e \<Rightarrow> Inl e
      | Inr c \<Rightarrow>
          (let posts = annotate_Count_comments ''comment_count'' d
                         (order_by_minus_pub_date
                           (Post_objects_filter d
                             (\<lambda>p. category p = category_id c \<and> is_published p \<and> pub_date p \<le> now)));
               paginator = \<lparr>object_list = posts, per_page = PAGINATOR_PAGES\<rparr>
           in case get_page paginator (req_page r) of
                Inl e \<Rightarrow> Inl e
              | Inr page_obj \<Rightarrow> Inr (Render ''blog/category.html'' (category_context c page_obj))))"

definition profile :: "db \<Rightarrow> int \<Rightarrow> request \<Rightarrow> string \<Rightarrow> error + response" where
  "profile d now r name =
     (case get_object_or_404 (User_objects d) (\<lambda>u. username u = name) of
        Inl e \<Rightarrow> Inl e
      | Inr u \<Rightarrow>
          (let posts =
                 (if user_eq r u
                  then order_by_minus_pub_date
                         (annotate_Count_comments ''comment_count'' d
                           (Post_objects_filter d (\<lambda>p. author p = user_id u)))
                  else order_by_minus_pub_date
                         (annotate_Count_comments ''comments_count'' d
                           (Post_objects_filter d
                             (\<lambda>p. author p = user_id u \<and> is_published p
                                  \<and> category__is_published d p \<and> pub_date p < now))));
               paginator = \<lparr>object_list = posts, per_page = PAGINATOR_PAGES\<rparr>
           in case get_page paginator (req_page r) of
                Inl e \<Rightarrow> Inl e
              | Inr page_obj \<Rightarrow> Inr (Render ''blog/profile.html'' (profile_context u page_obj))))"

text \<open>
  The views below write to the store: each returns its response and the store after
  the request. \<^verbatim>\<open>@login_required\<close> sends the anonymous user to the login page.
  A model instance that has not been saved has no primary key and no foreign keys yet;
  the model writes 0 there, and every such field is set before the row is stored.
\<close>

definition Post_blank :: post where
  "Post_blank = \<lparr>post_id = 0, title = [], post_text = [], pub_date = 0,
     is_published = False, post_image = None, author = 0, category = 0\<rparr>"

definition Comments_blank :: comments where
  "Comments_blank = \<lparr>comment_id = 0, comment_text = [], comment_author = 0, comment_post = 0\<rparr>"

definition create_post :: "clean_post \<Rightarrow> db \<Rightarrow> request \<Rightarrow> (error + response) \<times> db" where
  "create_post clean d r =
     (case req_user r of
        None \<Rightarrow> (Inr (Redirect login_url), d)
      | Some u \<Rightarrow>
          (let form = ModelForm (or_None (req_POST r)) (or_None (req_FILES r)) None
           in case PostForm_cleaned clean d form of
                Some c \<Rightarrow>
                  (let fields = construct_post c Post_blank;
                       fields = fields\<lparr>author := user_id u\<rparr>
                   in (Inr (Redirect (profile_url (username u))), Post_insert d fields))
              | None \<Rightarrow> (Inr (Render ''blog/create.html'' (post_form_context form)), d)))"

definition edit_post :: "clean_post \<Rightarrow> db \<Rightarrow> request \<Rightarrow> nat \<Rightarrow> (error + response) \<times> db" where
  "edit_post clean d r i =
     (case req_user r of
        None \<Rightarrow> (Inr (Redirect login_url), d)
      | Some u \<Rightarrow>
          (case get_object_or_404 (Post_objects d) (\<lambda>p. post_id p = i) of
             Inl e \<Rightarrow> (Inl e, d)
           | Inr p \<Rightarrow>
               if author_ne_user (author p) r then (Inr (Redirect (post_detail_url i)), d)
               else
                 (let form = ModelForm (or_None (req_POST r)) (or_None (req_FILES r)) (Some p)
                  in case PostForm_cleaned clean d form of
                       Some c \<Rightarrow>
                         (Inr (Redirect (post_detail_url i)), Post_update d (construct_post c p))
                     | None \<Rightarrow>
                         (Inr (Render ''blog/create.html'' (post_form_context form)), d))))"

definition delete_post :: "db \<Rightarrow> request \<Rightarrow> nat \<Rightarrow> (error + response) \<times> db" where
  "delete_post d r i =
     (case req_user r of
        None \<Rightarrow> (Inr (Redirect login_url), d)
      | Some u \<Rightarrow>
          (case get_object_or_404 (Post_objects d) (\<lambda>p. post_id p = i) of
             Inl e \<Rightarrow> (Inl e, d)
           | Inr p \<Rightarrow>
               if author_ne_user (author p) r then (Inr (Redirect (post_detail_url i)), d)
               else if req_method r = ''GET''
               then (Inr (Render ''blog/create.html''
                            (post_form_context (ModelForm None None (Some p)))), d)
               else if req_method r = ''POST''
               then (Inr (Redirect (profile_url (username u))), Post_delete d p)
               else (Inr (Redirect (post_detail_url i)), d)))"

definition add_comment :: "clean_text \<Rightarrow> db \<Rightarrow> request \<Rightarrow> nat \<Rightarrow> (error + response) \<times> db" where
  "add_comment clean d r i =
     (case req_user r of
        None \<Rightarrow> (Inr (Redirect login_url), d)
      | Some u \<Rightarrow>
          (case get_object_or_404 (Post_objects d) (\<lambda>p. post_id p = i) of
             Inl e \<Rightarrow> (Inl e, d)
           | Inr p \<Rightarrow>
               (let form = ModelForm (or_None (req_POST r)) None None;
                    d' = (case CommentForm_cleaned clean form of
                            Some t \<Rightarrow>
                              (let text = Comments_blank\<lparr>comment_text := t\<rparr>;
                                   text = text\<lparr>comment_author := user_id u\<rparr>;
                                   text = text\<lparr>comment_post := post_id p\<rparr>
                               in Comments_insert d text)
                          | None \<Rightarrow> d)
                in (Inr (Redirect (post_detail_url i)), d'))))"

definition edit_comment ::
  "clean_text \<Rightarrow> db \<Rightarrow> request \<Rightarrow> nat \<Rightarrow> nat \<Rightarrow> (error + response) \<times> db" where
  "edit_comment clean d r i cid =
     (case req_user r of
        None \<Rightarrow> (Inr (Redirect login_url), d)
      | Some u \<Rightarrow>
          (case get_object_or_404 (Comments_objects d) (\<lambda>c. comment_id c = cid) of
             Inl e \<Rightarrow> (Inl e, d)
           | Inr c \<Rightarrow>
               if author_ne_user (comment_author c) r
               then (Inr (Redirect (post_detail_url i)), d)
               else
                 (let form = ModelForm (or_None (req_POST r)) None (Some c)
                  in case CommentForm_cleaned clean form of
                       Some t \<Rightarrow>
                         (Inr (Redirect (post_detail_url i)),
                          Comments_update d (c\<lparr>comment_text := t\<rparr>))
                     | None \<Rightarrow>
                         (Inr (Render ''blog/comment.html'' (comment_context c (Some form))), d))))"

definition delete_comment :: "db \<Rightarrow> request \<Rightarrow> nat \<Rightarrow> nat \<Rightarrow> (error + response) \<times> db" where
  "delete_comment d r i slug' =
     (case req_user r of
        None \<Rightarrow> (Inr (Redirect login_url), d)
      | Some u \<Rightarrow>
          (case get_object_or_404 (Comments_objects d) (\<lambda>c. comment_id c = slug') of
             Inl e \<Rightarrow> (Inl e, d)
           | Inr c \<Rightarrow>
               if author_ne_user (comment_author c) r
               then (Inr (Redirect (post_detail_url slug')), d)
               else if req_method r = ''POST''
               then (Inr (Redirect (post_detail_url i)), Comments_delete d c)
               else if req_method r = ''GET''
               then (Inr (Render ''blog/comment.html'' (comment_context c None)), d)
               else (Inr (Redirect (post_detail_url i)), d)))"

section \<open>Example data\<close>

definition alice :: user where
  "alice = \<lparr>user_id = 1, username = ''alice'', email = ''a@example.org'',
            first_name = ''Alice'', last_name = ''A''\<rparr>"

definition bob :: user where
  "bob = \<lparr>user_id = 2, username = ''bob'', email = ''b@example.org'',
          first_name = ''Bob'', last_name = ''B''\<rparr>"

definition travel :: category where
  "travel = \<lparr>category_id = 1, category_title = ''Travel'', slug = ''travel'',
             c_is_published = True\<rparr>"

definition hidden :: category where
  "hidden = \<lparr>category_id = 2, category_title = ''Hidden'', slug = ''hidden'',
             c_is_published = False\<rparr>"

text \<open>Three posts of alice: a public one, a draft, and one published exactly at time 100.\<close>

definition post1 :: post where
  "post1 = \<lparr>post_id = 1, title = ''Rome'', post_text = ''x'', pub_date = 50,
            is_published = True, post_image = None, author = 1, category = 1\<rparr>"

definition post2 :: post where
  "post2 = \<lparr>post_id = 2, title = ''Draft'', post_text = ''y'', pub_date = 60,
            is_published = False, post_image = None, author = 1, category = 1\<rparr>"

definition post3 :: post where
  "post3 = \<lparr>post_id = 3, title = ''Oslo'', post_text = ''z'', pub_date = 100,
            is_published = True, post_image = None, author = 1, category = 1\<rparr>"

definition comment7 :: comments where
  "comment7 = \<lparr>comment_id = 7, comment_text = ''nice'', comment_author = 1, comment_post = 1\<rparr>"

definition db0 :: db where
  "db0 = \<lparr>User_objects = [alice, bob], Category_objects = [travel, hidden],
          Post_objects = [post1, post2, post3], Comments_objects = [comment7]\<rparr>"

definition get_as :: "user option \<Rightarrow> request" where
  "get_as u = \<lparr>req_user = u, req_method = ''GET'', req_POST = [], req_FILES = [],
               req_page = None\<rparr>"

definition post_as :: "user option \<Rightarrow> querydict \<Rightarrow> request" where
  "post_as u q = \<lparr>req_user = u, req_method = ''POST'', req_POST = q, req_FILES = [],
                  req_page = None\<rparr>"

text \<open>
  Two validators for the examples: a required text, and a post form that requires a
  title and a text and reads the publish time as a number of decimal digits.
\<close>

definition required_text :: clean_text where
  "required_text v = (case v of None \<Rightarrow> None | Some t \<Rightarrow> if t = [] then None else Some t)"

definition digits_value :: "string \<Rightarrow> int" where
  "digits_value ds = foldl (\<lambda>n c. 10 * n + (int (of_char c) - 48)) 0 ds"

definition simple_post_form :: clean_post where
  "simple_post_form d inst q fs =
     (case (querydict_get q ''title'', querydict_get q ''text'', querydict_get q ''pub_date'') of
        (Some t, Some b, Some w) \<Rightarrow>
          if t = [] \<or> b = [] then None
          else Some \<lparr>f_title = t, f_text = b, f_pub_date = digits_value w,
                 f_is_published = (querydict_get q ''is_published'' \<noteq> None),
                 f_image = querydict_get fs ''image'', f_category = 1\<rparr>
      | _ \<Rightarrow> None)"

section \<open>Post detail\<close>

lemma objects_get_Inr_mem: "objects_get rows P = Inr x \<Longrightarrow> x \<in> set rows \<and> P x"
proof -
  assume a: "objects_get rows P = Inr x"
  then have "filter P rows = [x]"
    by (auto simp: objects_get_def split: list.splits)
  then have "x \<in> set (filter P rows)" by simp
  then show ?thesis by simp
qed

lemma get_object_or_404_Inr: "get_object_or_404 rows P = Inr x \<longleftrightarrow> objects_get rows P = Inr x"
  by (auto simp: get_object_or_404_def split: sum.splits error.splits)

text \<open>
  C1. For a post that the store holds under the identifier and whose category row
  exists, the detail view renders the post when it is published, its category is
  published and its publish time is not after now, or when the viewer is its author;
  in every other case the result is the not-found error (there is no other refusal).
\<close>

theorem post_detail_visibility:
  assumes "get_object_or_404 (Post_objects d) (\<lambda>p. post_id p = i) = Inr p"
    and "post_category d p = Inr c"
  shows "post_detail d now r i =
     (if (is_published p \<and> c_is_published c \<and> pub_date p \<le> now)
         \<or> \<not> author_ne_user (author p) r
      then Inr (Render ''blog/detail.html''
             (detail_context p (ModelForm None None None) (post_comments d p)))
      else Inl Http404)"
  using assms by (auto simp: post_detail_def)

theorem post_detail_visibility_witness:
  "post_detail db0 100 (get_as (Some bob)) 1 =
     Inr (Render ''blog/detail.html''
       (detail_context post1 (ModelForm None None None) [comment7]))
   \<and> post_detail db0 100 (get_as (Some bob)) 2 = Inl Http404
   \<and> post_detail db0 100 (get_as None) 2 = Inl Http404
   \<and> post_detail db0 100 (get_as (Some alice)) 2 =
     Inr (Render ''blog/detail.html''
       (detail_context post2 (ModelForm None None None) []))"
proof -
  have g1: "get_object_or_404 (Post_objects db0) (\<lambda>p. post_id p = 1) = Inr post1"
    by (simp add: get_object_or_404_def objects_get_def db0_def post1_def post2_def post3_def)
  have g2: "get_object_or_404 (Post_objects db0) (\<lambda>p. post_id p = 2) = Inr post2"
    by (simp add: get_object_or_404_def objects_get_def db0_def post1_def post2_def post3_def)
  have c1: "post_category db0 post1 = Inr travel"
    by (simp add: post_category_def objects_get_def db0_def post1_def travel_def hidden_def)
  have c2: "post_category db0 post2 = Inr travel"
    by (simp add: post_category_def objects_get_def db0_def post2_def travel_def hidden_def)
  show ?thesis
    using post_detail_visibility [OF g1 c1, of 100 "get_as (Some bob)"]
      post_detail_visibility [OF g2 c2, of 100 "get_as (Some bob)"]
      post_detail_visibility [OF g2 c2, of 100 "get_as None"]
      post_detail_visibility [OF g2 c2, of 100 "get_as (Some alice)"]
    by (simp add: author_ne_user_def get_as_def post_comments_def db0_def comment7_def
        post1_def post2_def travel_def alice_def bob_def)
qed

section \<open>Listings\<close>

lemma num_pages_ge_1: "0 < per_page pg \<Longrightarrow> 1 \<le> num_pages pg"
proof -
  assume pp: "0 < per_page pg"
  define hits where "hits = max 1 (int (paginator_count pg))"
  have "- hits < 0" by (simp add: hits_def)
  with pp have "(- hits) div int (per_page pg) < 0"
    by (simp add: div_neg_pos_less0)
  then show ?thesis
    by (simp add: num_pages_def Let_def hits_def [symmetric])
qed

lemma paginator_page_Inr:
  assumes "1 \<le> k" and "k \<le> num_pages pg"
  shows "paginator_page pg (Some k) =
     Inr \<lparr>page_object_list = take (per_page pg) (drop (nat (k - 1) * per_page pg) (object_list pg)),
          page_number = k, page_paginator = pg\<rparr>"
proof -
  let ?b = "(k - 1) * int (per_page pg)"
  have nb: "nat ?b = nat (k - 1) * per_page pg"
    using assms(1) by (simp add: nat_mult_distrib)
  have b0: "0 \<le> ?b" using assms(1) by simp
  have v: "validate_number pg (Some k) = Inr k"
    using assms by (simp add: validate_number_def)
  show ?thesis
  proof (cases "?b + int (per_page pg) \<ge> int (paginator_count pg)")
    case True
    have "length (drop (nat ?b) (object_list pg)) \<le> per_page pg"
      using True b0 by (simp add: paginator_count_def; linarith)
    moreover have "length (drop (nat ?b) (object_list pg)) \<le> nat (int (paginator_count pg) - ?b)"
      using b0 by (simp add: paginator_count_def; linarith)
    ultimately have "take (nat (int (paginator_count pg) - ?b)) (drop (nat ?b) (object_list pg))
        = take (per_page pg) (drop (nat ?b) (object_list pg))"
      by simp
    with True v nb show ?thesis
      by (simp add: paginator_page_def Let_def)
  next
    case False
    with v nb show ?thesis
      by (simp add: paginator_page_def Let_def)
  qed
qed

lemma get_page_Inr:
  assumes "0 < per_page pg"
  shows "\<exists>k. 1 \<le> k \<and> k \<le> num_pages pg \<and> get_page pg n =
     Inr \<lparr>page_object_list =
            take (per_page pg) (drop (nat (k - 1) * per_page pg) (object_list pg)),
          page_number = k, page_paginator = pg\<rparr>"
proof -
  note np = num_pages_ge_1 [OF assms]
  have "\<exists>k. 1 \<le> k \<and> k \<le> num_pages pg \<and> get_page pg n = paginator_page pg (Some k)"
  proof (cases n)
    case None
    then have "get_page pg n = paginator_page pg (Some 1)"
      by (simp add: get_page_def validate_number_def)
    with np show ?thesis by blast
  next
    case (Some a)
    show ?thesis
    proof (cases "a < 1 \<or> num_pages pg < a")
      case True
      with Some have "get_page pg n = paginator_page pg (Some (num_pages pg))"
        by (auto simp: get_page_def validate_number_def)
      with np show ?thesis by blast
    next
      case False
      with Some have "get_page pg n = paginator_page pg (Some a)"
        by (auto simp: get_page_def validate_number_def)
      moreover from False have "1 \<le> a" "a \<le> num_pages pg" by auto
      ultimately show ?thesis by blast
    qed
  qed
  then obtain k where k: "1 \<le> k" "k \<le> num_pages pg" "get_page pg n = paginator_page pg (Some k)"
    by blast
  then show ?thesis
    using paginator_page_Inr [OF k(1) k(2)] by auto
qed

lemma map_fst_annotate: "map fst (annotate_Count_comments name d rs) = map fst rs"
  by (induction rs) (auto simp: annotate_Count_comments_def)

lemma map_insort_key:
  "map f (insort_key (\<lambda>r. g (f r)) x xs) = insort_key g (f x) (map f xs)"
  by (induction xs) auto

lemma map_sort_key: "map f (sort_key (\<lambda>r. g (f r)) xs) = sort_key g (map f xs)"
  by (induction xs) (auto simp: map_insort_key)

lemma map_fst_order_by:
  "map fst (order_by_minus_pub_date rs) = sort_key (\<lambda>p. - pub_date p) (map fst rs)"
  unfolding order_by_minus_pub_date_def
  by (rule map_sort_key [where f = fst and g = "\<lambda>p. - pub_date p"])

lemma map_fst_Post_objects_filter: "map fst (Post_objects_filter d P) = filter P (Post_objects d)"
  by (simp add: Post_objects_filter_def comp_def)

lemma sorted_desc_sort_key:
  "sorted_wrt (\<lambda>a b. pub_date b \<le> pub_date a) (sort_key (\<lambda>p. - pub_date p) (ps :: post list))"
proof -
  have "sorted (map (\<lambda>p. - pub_date p) (sort_key (\<lambda>p. - pub_date p) ps))"
    by (rule sorted_sort_key)
  then show ?thesis
    by (simp add: sorted_map)
qed

lemma index_eq:
  "\<exists>k. 1 \<le> k \<and> index d now r =
     Inr (Render ''blog/index.html'' (index_context
       \<lparr>page_object_list = take 10 (drop (nat (k - 1) * 10)
            (order_by_minus_pub_date
              (annotate_Count_comments ''comment_count'' d
                (Post_objects_filter d
                  (\<lambda>p. pub_date p \<le> now \<and> is_published p \<and> category__is_published d p))))),
        page_number = k,
        page_paginator = \<lparr>object_list = order_by_minus_pub_date
              (annotate_Count_comments ''comment_count'' d
                (Post_objects_filter d
                  (\<lambda>p. pub_date p \<le> now \<and> is_published p \<and> category__is_published d p))),
           per_page = 10\<rparr>\<rparr>))"
proof -
  let ?pg = "\<lparr>object_list = order_by_minus_pub_date
              (annotate_Count_comments ''comment_count'' d
                (Post_objects_filter d
                  (\<lambda>p. pub_date p \<le> now \<and> is_published p \<and> category__is_published d p))),
           per_page = 10\<rparr>"
  have "0 < per_page ?pg" by simp
  from get_page_Inr [OF this, of "req_page r"] show ?thesis
    by (auto simp: index_def PAGINATOR_PAGES_def Let_def)
qed

lemma category_posts_eq:
  assumes "get_object_or_404 (Category_objects d) (\<lambda>c. slug c = s \<and> c_is_published c) = Inr c"
  shows "\<exists>k. 1 \<le> k \<and> category_posts d now r s =
     Inr (Render ''blog/category.html'' (category_context c
       \<lparr>page_object_list = take 10 (drop (nat (k - 1) * 10)
            (annotate_Count_comments ''comment_count'' d
              (order_by_minus_pub_date
                (Post_objects_filter d
                  (\<lambda>p. category p = category_id c \<and> is_published p \<and> pub_date p \<le> now))))),
        page_number = k,
        page_paginator = \<lparr>object_list = annotate_Count_comments ''comment_count'' d
              (order_by_minus_pub_date
                (Post_objects_filter d
                  (\<lambda>p. category p = category_id c \<and> is_published p \<and> pub_date p \<le> now))),
           per_page = 10\<rparr>\<rparr>))"
proof -
  let ?pg = "\<lparr>object_list = annotate_Count_comments ''comment_count'' d
              (order_by_minus_pub_date
                (Post_objects_filter d
                  (\<lambda>p. category p = category_id c \<and> is_published p \<and> pub_date p \<le> now))),
           per_page = 10\<rparr>"
  have "0 < per_page ?pg" by simp
  from get_page_Inr [OF this, of "req_page r"] show ?thesis
    using assms by (auto simp: category_posts_def PAGINATOR_PAGES_def Let_def)
qed

lemma profile_eq:
  assumes "get_object_or_404 (User_objects d) (\<lambda>u. username u = name) = Inr u"
    and "posts = (if user_eq r u
                  then order_by_minus_pub_date
                         (annotate_Count_comments ''comment_count'' d
                           (Post_objects_filter d (\<lambda>p. author p = user_id u)))
                  else order_by_minus_pub_date
                         (annotate_Count_comments ''comments_count'' d
                           (Post_objects_filter d
                             (\<lambda>p. author p = user_id u \<and> is_published p
                                  \<and> category__is_published d p \<and> pub_date p < now))))"
  shows "\<exists>k. 1 \<le> k \<and> profile d now r name =
     Inr (Render ''blog/profile.html'' (profile_context u
       \<lparr>page_object_list = take 10 (drop (nat (k - 1) * 10) posts),
        page_number = k,
        page_paginator = \<lparr>object_list = posts, per_page = 10\<rparr>\<rparr>))"
proof -
  let ?pg = "\<lparr>object_list = posts, per_page = 10\<rparr>"
  have "0 < per_page ?pg" by simp
  from get_page_Inr [OF this, of "req_page r"] show ?thesis
    using assms(1) unfolding assms(2) by (auto simp: profile_def PAGINATOR_PAGES_def Let_def)
qed

text \<open>
  C9. Each of the three listings (global feed, category feed, profile feed) returns, for
  every page request, a page of at most 10 items, and the count of its paginator is the
  number of rows of the post table that match the query of the listing.
\<close>

theorem listing_page_size_and_count:
  "(\<exists>pg. index d now r = Inr (Render ''blog/index.html'' (index_context pg))
        \<and> length (page_object_list pg) \<le> 10
        \<and> paginator_count (page_paginator pg) =
            length (filter (\<lambda>p. pub_date p \<le> now \<and> is_published p \<and> category__is_published d p)
                      (Post_objects d)))
   \<and> (\<forall>c. get_object_or_404 (Category_objects d) (\<lambda>c. slug c = s \<and> c_is_published c) = Inr c \<longrightarrow>
        (\<exists>pg. category_posts d now r s = Inr (Render ''blog/category.html'' (category_context c pg))
          \<and> length (page_object_list pg) \<le> 10
          \<and> paginator_count (page_paginator pg) =
              length (filter (\<lambda>p. category p = category_id c \<and> is_published p \<and> pub_date p \<le> now)
                        (Post_objects d))))
   \<and> (\<forall>u. get_object_or_404 (User_objects d) (\<lambda>u. username u = name) = Inr u \<longrightarrow>
        (\<exists>pg. profile d now r name = Inr (Render ''blog/profile.html'' (profile_context u pg))
          \<and> length (page_object_list pg) \<le> 10
          \<and> paginator_count (page_paginator pg) =
              length (filter (\<lambda>p. author p = user_id u \<and>
                                 (user_eq r u \<or> is_published p \<and> category__is_published d p
                                    \<and> pub_date p < now))
                        (Post_objects d))))"
proof (intro conjI allI impI)
  from index_eq [of d now r] obtain k where
    "index d now r = Inr (Render ''blog/index.html'' (index_context
       \<lparr>page_object_list = take 10 (drop (nat (k - 1) * 10)
            (order_by_minus_pub_date
              (annotate_Count_comments ''comment_count'' d
                (Post_objects_filter d
                  (\<lambda>p. pub_date p \<le> now \<and> is_published p \<and> category__is_published d p))))),
        page_number = k,
        page_paginator = \<lparr>object_list = order_by_minus_pub_date
              (annotate_Count_comments ''comment_count'' d
                (Post_objects_filter d
                  (\<lambda>p. pub_date p \<le> now \<and> is_published p \<and> category__is_published d p))),
           per_page = 10\<rparr>\<rparr>))"
    by blast
  then show "\<exists>pg. index d now r = Inr (Render ''blog/index.html'' (index_context pg))
        \<and> length (page_object_list pg) \<le> 10
        \<and> paginator_count (page_paginator pg) =
            length (filter (\<lambda>p. pub_date p \<le> now \<and> is_published p \<and> category__is_published d p)
                      (Post_objects d))"
    by (simp add: paginator_count_def order_by_minus_pub_date_def
        annotate_Count_comments_def Post_objects_filter_def)
next
  fix c
  assume "get_object_or_404 (Category_objects d) (\<lambda>c. slug c = s \<and> c_is_published c) = Inr c"
  from category_posts_eq [OF this, of now r]
  show "\<exists>pg. category_posts d now r s = Inr (Render ''blog/category.html'' (category_context c pg))
          \<and> length (page_object_list pg) \<le> 10
          \<and> paginator_count (page_paginator pg) =
              length (filter (\<lambda>p. category p = category_id c \<and> is_published p \<and> pub_date p \<le> now)
                        (Post_objects d))"
    by (auto simp: paginator_count_def order_by_minus_pub_date_def
        annotate_Count_comments_def Post_objects_filter_def)
next
  fix u
  assume "get_object_or_404 (User_objects d) (\<lambda>u. username u = name) = Inr u"
  from profile_eq [OF this refl, where r = r and now = now]
  show "\<exists>pg. profile d now r name = Inr (Render ''blog/profile.html'' (profile_context u pg))
          \<and> length (page_object_list pg) \<le> 10
          \<and> paginator_count (page_paginator pg) =
              length (filter (\<lambda>p. author p = user_id u \<and>
                                 (user_eq r u \<or> is_published p \<and> category__is_published d p
                                    \<and> pub_date p < now))
                        (Post_objects d))"
    by (cases "user_eq r u") (auto simp: paginator_count_def order_by_minus_pub_date_def
        annotate_Count_comments_def Post_objects_filter_def)
qed

theorem listing_page_size_and_count_witness:
  "(\<exists>pg. index db0 100 (get_as (Some bob)) = Inr (Render ''blog/index.html'' (index_context pg))
        \<and> length (page_object_list pg) \<le> 10 \<and> paginator_count (page_paginator pg) = 2)
   \<and> (\<exists>pg. category_posts db0 100 (get_as (Some bob)) ''travel'' =
              Inr (Render ''blog/category.html'' (category_context travel pg))
        \<and> length (page_object_list pg) \<le> 10 \<and> paginator_count (page_paginator pg) = 2)
   \<and> (\<exists>pg. profile db0 100 (get_as (Some bob)) ''alice'' =
              Inr (Render ''blog/profile.html'' (profile_context alice pg))
        \<and> length (page_object_list pg) \<le> 10 \<and> paginator_count (page_paginator pg) = 1)"
proof -
  have c: "get_object_or_404 (Category_objects db0) (\<lambda>c. slug c = ''travel'' \<and> c_is_published c)
      = Inr travel"
    by (simp add: get_object_or_404_def objects_get_def db0_def travel_def hidden_def)
  have u: "get_object_or_404 (User_objects db0) (\<lambda>u. username u = ''alice'') = Inr alice"
    by (simp add: get_object_or_404_def objects_get_def db0_def alice_def bob_def)
  have n1: "length (filter (\<lambda>p. pub_date p \<le> 100 \<and> is_published p \<and> category__is_published db0 p)
        (Post_objects db0)) = 2"
    by (simp add: db0_def post1_def post2_def post3_def category__is_published_def
        travel_def hidden_def)
  have n2: "length (filter (\<lambda>p. category p = category_id travel \<and> is_published p \<and> pub_date p \<le> 100)
        (Post_objects db0)) = 2"
    by (simp add: db0_def post1_def post2_def post3_def travel_def)
  have n3: "length (filter (\<lambda>p. author p = user_id alice \<and>
        (user_eq (get_as (Some bob)) alice \<or> is_published p \<and> category__is_published db0 p
           \<and> pub_date p < 100)) (Post_objects db0)) = 1"
    by (simp add: db0_def post1_def post2_def post3_def category__is_published_def
        travel_def hidden_def alice_def bob_def user_eq_def get_as_def)
  note t = listing_page_size_and_count [of db0 100 "get_as (Some bob)" "''travel''" "''alice''"]
  have t1: "\<exists>pg. index db0 100 (get_as (Some bob)) = Inr (Render ''blog/index.html'' (index_context pg))
        \<and> length (page_object_list pg) \<le> 10 \<and> paginator_count (page_paginator pg) = 2"
    using t [THEN conjunct1] unfolding n1 .
  have t2: "\<exists>pg. category_posts db0 100 (get_as (Some bob)) ''travel'' =
              Inr (Render ''blog/category.html'' (category_context travel pg))
        \<and> length (page_object_list pg) \<le> 10 \<and> paginator_count (page_paginator pg) = 2"
    using t [THEN conjunct2, THEN conjunct1, THEN spec, THEN mp, OF c] unfolding n2 .
  have t3: "\<exists>pg. profile db0 100 (get_as (Some bob)) ''alice'' =
              Inr (Render ''blog/profile.html'' (profile_context alice pg))
        \<and> length (page_object_list pg) \<le> 10 \<and> paginator_count (page_paginator pg) = 1"
    using t [THEN conjunct2, THEN conjunct2, THEN spec, THEN mp, OF u] unfolding n3 .
  from t1 t2 t3 show ?thesis by (intro conjI)
qed

lemma filter_key_distinct:
  "distinct (map f xs) \<Longrightarrow> x \<in> set xs \<Longrightarrow> filter (\<lambda>y. f y = f x) xs = [x]"
proof (induction xs)
  case Nil
  then show ?case by simp
next
  case (Cons a xs)
  show ?case
  proof (cases "a = x")
    case True
    with Cons.prems have "\<forall>y\<in>set xs. f y \<noteq> f x" by (auto simp: image_iff)
    then have "filter (\<lambda>y. f y = f x) xs = []" by (simp add: filter_empty_conv)
    with True show ?thesis by simp
  next
    case False
    with Cons.prems have x: "x \<in> set xs" and "f a \<noteq> f x" by (auto simp: image_iff)
    with Cons show ?thesis by simp
  qed
qed

lemma get_object_or_404_unique:
  assumes "distinct (map f rows)" and "x \<in> set rows" and "Q x"
  shows "get_object_or_404 rows (\<lambda>y. f y = f x \<and> Q y) = Inr x"
proof -
  have "filter (\<lambda>y. f y = f x \<and> Q y) rows = filter Q (filter (\<lambda>y. f y = f x) rows)"
    by (simp add: conj_commute)
  also have "\<dots> = [x]"
    using assms by (simp add: filter_key_distinct)
  finally show ?thesis
    by (simp add: get_object_or_404_def objects_get_def)
qed

lemma get_object_or_404_none:
  assumes "\<forall>x\<in>set rows. \<not> P x"
  shows "get_object_or_404 rows P = Inl Http404"
proof -
  from assms have "filter P rows = []" by (simp add: filter_empty_conv)
  then show ?thesis by (simp add: get_object_or_404_def objects_get_def)
qed

text \<open>
  C6. With slugs unique in the category table: the category feed is not-found when no
  category has the slug or the one that has it is not published; otherwise it renders
  that category with a page cut from the list of exactly the posts of the category that
  are published and whose publish time is not after now, in descending publish time.
\<close>

theorem category_posts_feed:
  assumes "distinct (map slug (Category_objects d))"
  shows "((\<forall>c\<in>set (Category_objects d). slug c = s \<longrightarrow> \<not> c_is_published c)
            \<longrightarrow> category_posts d now r s = Inl Http404)
     \<and> (\<forall>c\<in>set (Category_objects d). slug c = s \<and> c_is_published c \<longrightarrow>
          (\<exists>pg. category_posts d now r s =
                  Inr (Render ''blog/category.html'' (category_context c pg))
             \<and> map fst (object_list (page_paginator pg)) =
                 sort_key (\<lambda>p. - pub_date p)
                   (filter (\<lambda>p. category p = category_id c \<and> is_published p \<and> pub_date p \<le> now)
                      (Post_objects d))
             \<and> set (map fst (object_list (page_paginator pg))) =
                 {p \<in> set (Post_objects d).
                    category p = category_id c \<and> is_published p \<and> pub_date p \<le> now}
             \<and> sorted_wrt (\<lambda>a b. pub_date b \<le> pub_date a)
                 (map fst (object_list (page_paginator pg)))
             \<and> page_object_list pg =
                 take 10 (drop (nat (page_number pg - 1) * 10) (object_list (page_paginator pg)))))"
proof (intro conjI impI ballI)
  assume "\<forall>c\<in>set (Category_objects d). slug c = s \<longrightarrow> \<not> c_is_published c"
  then have "\<forall>c\<in>set (Category_objects d). \<not> (slug c = s \<and> c_is_published c)" by blast
  then have "get_object_or_404 (Category_objects d) (\<lambda>c. slug c = s \<and> c_is_published c)
      = Inl Http404"
    by (rule get_object_or_404_none)
  then show "category_posts d now r s = Inl Http404"
    by (simp add: category_posts_def)
next
  fix c
  assume c: "c \<in> set (Category_objects d)" and sp: "slug c = s \<and> c_is_published c"
  let ?P = "\<lambda>p. category p = category_id c \<and> is_published p \<and> pub_date p \<le> now"
  let ?ol = "annotate_Count_comments ''comment_count'' d
               (order_by_minus_pub_date (Post_objects_filter d ?P))"
  have "get_object_or_404 (Category_objects d) (\<lambda>y. slug y = slug c \<and> c_is_published y) = Inr c"
    using assms c sp by (intro get_object_or_404_unique) auto
  with sp have g: "get_object_or_404 (Category_objects d) (\<lambda>y. slug y = s \<and> c_is_published y) = Inr c"
    by simp
  from category_posts_eq [OF g, of now r] obtain k where k: "1 \<le> k"
    and e: "category_posts d now r s =
      Inr (Render ''blog/category.html'' (category_context c
        \<lparr>page_object_list = take 10 (drop (nat (k - 1) * 10) ?ol),
         page_number = k, page_paginator = \<lparr>object_list = ?ol, per_page = 10\<rparr>\<rparr>))"
    by blast
  have m: "map fst ?ol = sort_key (\<lambda>p. - pub_date p) (filter ?P (Post_objects d))"
    by (simp only: map_fst_annotate map_fst_order_by map_fst_Post_objects_filter)
  have st: "set (map fst ?ol) = {p \<in> set (Post_objects d). ?P p}"
    unfolding m by auto
  have so: "sorted_wrt (\<lambda>a b. pub_date b \<le> pub_date a) (map fst ?ol)"
    unfolding m by (rule sorted_desc_sort_key)
  show "\<exists>pg. category_posts d now r s =
                  Inr (Render ''blog/category.html'' (category_context c pg))
             \<and> map fst (object_list (page_paginator pg)) =
                 sort_key (\<lambda>p. - pub_date p) (filter ?P (Post_objects d))
             \<and> set (map fst (object_list (page_paginator pg))) =
                 {p \<in> set (Post_objects d). ?P p}
             \<and> sorted_wrt (\<lambda>a b. pub_date b \<le> pub_date a)
                 (map fst (object_list (page_paginator pg)))
             \<and> page_object_list pg =
                 take 10 (drop (nat (page_number pg - 1) * 10) (object_list (page_paginator pg)))"
    apply (rule exI [where x = "\<lparr>page_object_list = take 10 (drop (nat (k - 1) * 10) ?ol),
         page_number = k, page_paginator = \<lparr>object_list = ?ol, per_page = 10\<rparr>\<rparr>"])
    using e m st so by simp
qed

theorem category_posts_feed_witness:
  "category_posts db0 100 (get_as None) ''hidden'' = Inl Http404
   \<and> category_posts db0 100 (get_as None) ''nowhere'' = Inl Http404
   \<and> (\<exists>pg. category_posts db0 100 (get_as None) ''travel'' =
              Inr (Render ''blog/category.html'' (category_context travel pg))
         \<and> map fst (object_list (page_paginator pg)) = [post3, post1])"
proof -
  have dist: "distinct (map slug (Category_objects db0))"
    by (simp add: db0_def travel_def hidden_def)
  have h: "\<forall>c\<in>set (Category_objects db0). slug c = ''hidden'' \<longrightarrow> \<not> c_is_published c"
    by (simp add: db0_def travel_def hidden_def)
  have n: "\<forall>c\<in>set (Category_objects db0). slug c = ''nowhere'' \<longrightarrow> \<not> c_is_published c"
    by (simp add: db0_def travel_def hidden_def)
  have t: "travel \<in> set (Category_objects db0)" "slug travel = ''travel'' \<and> c_is_published travel"
    by (simp_all add: db0_def travel_def)
  have srt: "sort_key (\<lambda>p. - pub_date p)
       (filter (\<lambda>p. category p = category_id travel \<and> is_published p \<and> pub_date p \<le> 100)
          (Post_objects db0)) = [post3, post1]"
    by (simp add: db0_def post1_def post2_def post3_def travel_def)
  have t1: "category_posts db0 100 (get_as None) ''hidden'' = Inl Http404"
    using category_posts_feed [OF dist, of "''hidden''" 100 "get_as None", THEN conjunct1] h
    by (rule mp)
  have t2: "category_posts db0 100 (get_as None) ''nowhere'' = Inl Http404"
    using category_posts_feed [OF dist, of "''nowhere''" 100 "get_as None", THEN conjunct1] n
    by (rule mp)
  from category_posts_feed [OF dist, of "''travel''" 100 "get_as None", THEN conjunct2,
      THEN bspec, OF t(1), THEN mp, OF t(2)]
  have t3: "\<exists>pg. category_posts db0 100 (get_as None) ''travel'' =
              Inr (Render ''blog/category.html'' (category_context travel pg))
         \<and> map fst (object_list (page_paginator pg)) = [post3, post1]"
    unfolding srt by - (elim exE conjE, intro exI conjI, assumption+)
  from t1 t2 t3 show ?thesis by (intro conjI)
qed

section \<open>Profile feed\<close>

lemma profile_feed:
  assumes "get_object_or_404 (User_objects d) (\<lambda>u. username u = name) = Inr u"
  shows "\<exists>pg. profile d now r name = Inr (Render ''blog/profile.html'' (profile_context u pg))
     \<and> map fst (object_list (page_paginator pg)) =
         sort_key (\<lambda>p. - pub_date p)
           (filter (\<lambda>p. author p = user_id u \<and>
                        (user_eq r u \<or> is_published p \<and> category__is_published d p
                           \<and> pub_date p < now))
              (Post_objects d))
     \<and> sorted_wrt (\<lambda>a b. pub_date b \<le> pub_date a) (map fst (object_list (page_paginator pg)))"
proof -
  let ?P = "\<lambda>p. author p = user_id u \<and>
                        (user_eq r u \<or> is_published p \<and> category__is_published d p
                           \<and> pub_date p < now)"
  from profile_eq [OF assms refl, where r = r and now = now]
  obtain pg where e: "profile d now r name = Inr (Render ''blog/profile.html'' (profile_context u pg))"
    and ol: "object_list (page_paginator pg) = (if user_eq r u
                  then order_by_minus_pub_date
                         (annotate_Count_comments ''comment_count'' d
                           (Post_objects_filter d (\<lambda>p. author p = user_id u)))
                  else order_by_minus_pub_date
                         (annotate_Count_comments ''comments_count'' d
                           (Post_objects_filter d
                             (\<lambda>p. author p = user_id u \<and> is_published p
                                  \<and> category__is_published d p \<and> pub_date p < now))))"
    by auto
  have m: "map fst (object_list (page_paginator pg)) = sort_key (\<lambda>p. - pub_date p) (filter ?P (Post_objects d))"
    unfolding ol
    by (simp add: map_fst_annotate map_fst_order_by map_fst_Post_objects_filter)
  have "sorted_wrt (\<lambda>a b. pub_date b \<le> pub_date a) (map fst (object_list (page_paginator pg)))"
    unfolding m by (rule sorted_desc_sort_key)
  with e m show ?thesis by blast
qed

text \<open>
  C3, at a post published exactly now. In the example store \<open>post3\<close> of alice is
  published, its category is published and its publish time is 100. At time 100 the
  profile of alice as bob sees it lists \<open>post1\<close> only, although \<open>post3\<close> satisfies
  the visibility predicate with \<open>pub_date \<le> now\<close>; the global feed and the detail view
  show \<open>post3\<close> to bob at the same time.
\<close>

theorem profile_omits_post_published_now:
  "profile db0 100 (get_as (Some bob)) ''alice'' =
     Inr (Render ''blog/profile.html'' (profile_context alice
       \<lparr>page_object_list = [(post1, [(''comments_count'', 1)])], page_number = 1,
        page_paginator = \<lparr>object_list = [(post1, [(''comments_count'', 1)])], per_page = 10\<rparr>\<rparr>))
   \<and> post3 \<in> set (Post_objects db0) \<and> author post3 = user_id alice
   \<and> is_published post3 \<and> category__is_published db0 post3 \<and> pub_date post3 \<le> 100
   \<and> index db0 100 (get_as (Some bob)) =
     Inr (Render ''blog/index.html'' (index_context
       \<lparr>page_object_list = [(post3, [(''comment_count'', 0)]), (post1, [(''comment_count'', 1)])],
        page_number = 1,
        page_paginator = \<lparr>object_list =
           [(post3, [(''comment_count'', 0)]), (post1, [(''comment_count'', 1)])],
           per_page = 10\<rparr>\<rparr>))
   \<and> post_detail db0 100 (get_as (Some bob)) 3 =
     Inr (Render ''blog/detail.html'' (detail_context post3 (ModelForm None None None) []))"
  by (simp add: profile_def index_def post_detail_def get_object_or_404_def objects_get_def
      post_category_def post_comments_def author_ne_user_def user_eq_def
      category__is_published_def Post_objects_filter_def annotate_Count_comments_def
      order_by_minus_pub_date_def get_page_def paginator_page_def validate_number_def
      num_pages_def paginator_count_def PAGINATOR_PAGES_def Let_def
      db0_def post1_def post2_def post3_def comment7_def travel_def hidden_def
      alice_def bob_def get_as_def)

section \<open>Author-gated views\<close>

lemma non_author_unchanged:
  assumes "req_user r = Some u"
  shows "get_object_or_404 (Post_objects d) (\<lambda>p. post_id p = i) = Inr p \<Longrightarrow>
           author_ne_user (author p) r \<Longrightarrow>
           edit_post clean_p d r i = (Inr (Redirect (post_detail_url i)), d)"
    and "get_object_or_404 (Post_objects d) (\<lambda>p. post_id p = i) = Inr p \<Longrightarrow>
           author_ne_user (author p) r \<Longrightarrow>
           delete_post d r i = (Inr (Redirect (post_detail_url i)), d)"
    and "get_object_or_404 (Comments_objects d) (\<lambda>c. comment_id c = cid) = Inr c \<Longrightarrow>
           author_ne_user (comment_author c) r \<Longrightarrow>
           edit_comment clean_t d r i cid = (Inr (Redirect (post_detail_url i)), d)"
    and "get_object_or_404 (Comments_objects d) (\<lambda>c. comment_id c = cid) = Inr c \<Longrightarrow>
           author_ne_user (comment_author c) r \<Longrightarrow>
           delete_comment d r i cid = (Inr (Redirect (post_detail_url cid)), d)"
  using assms
  by (simp_all add: edit_post_def delete_post_def edit_comment_def delete_comment_def)

text \<open>
  C2, at the delete-comment view. In the example store \<open>comment7\<close> of alice belongs to
  post 1. When bob, who is not its author, posts to the delete-comment view of post 1 and
  comment 7, the store is unchanged, and the redirect goes to the detail view of the
  comment's own identifier 7, which is not its post and here is no post at all.
\<close>

theorem delete_comment_non_author_redirects_to_comment_id:
  "delete_comment db0 (post_as (Some bob) []) 1 7 = (Inr (Redirect (post_detail_url 7)), db0)
   \<and> get_object_or_404 (Comments_objects db0) (\<lambda>c. comment_id c = 7) = Inr comment7
   \<and> comment_post comment7 = 1
   \<and> post_detail db0 100 (get_as (Some bob)) 7 = Inl Http404
   \<and> edit_comment required_text db0 (post_as (Some bob) [(''text'', ''x'')]) 1 7 =
       (Inr (Redirect (post_detail_url 1)), db0)"
  by (simp add: delete_comment_def edit_comment_def post_detail_def get_object_or_404_def
      objects_get_def author_ne_user_def db0_def post1_def post2_def post3_def comment7_def
      bob_def post_as_def get_as_def)

section \<open>Adding a comment\<close>

lemma map_of_filter_key:
  "P (k, v) \<Longrightarrow> (\<And>w. P (k, w)) \<Longrightarrow> map_of (filter P xs) k = map_of xs k"
  by (induction xs) auto

lemma querydict_get_only_fields:
  assumes "k \<in> set fs"
  shows "querydict_get (only_fields fs q) k = querydict_get q k"
proof -
  have "map_of (filter (\<lambda>kv. fst kv \<in> set fs) (rev q)) k = map_of (rev q) k"
    using assms by (induction "rev q" arbitrary: q) (auto simp: map_of_filter_key)
  then show ?thesis
    by (simp add: querydict_get_def only_fields_def rev_filter)
qed

lemma CommentForm_cleaned_eq:
  "CommentForm_cleaned clean (ModelForm (or_None q) None inst) =
     (if q = [] then None else clean (querydict_get q ''text''))"
  by (simp add: CommentForm_cleaned_def is_bound_def or_None_def form_querydict_def
      querydict_get_only_fields CommentForm_fields_def)

lemma fold_max_init: "a \<le> fold max xs (a::nat)"
proof (induction xs arbitrary: a)
  case Nil
  show ?case by simp
next
  case (Cons x xs)
  have "a \<le> max x a" by simp
  also have "\<dots> \<le> fold max xs (max x a)" by (rule Cons.IH)
  finally show ?case by simp
qed

lemma fold_max_ge: "x \<in> set xs \<Longrightarrow> x \<le> fold max xs (a::nat)"
proof (induction xs arbitrary: a)
  case Nil
  then show ?case by simp
next
  case (Cons y ys)
  show ?case
  proof (cases "x = y")
    case True
    have "x \<le> max y a" using True by simp
    also have "\<dots> \<le> fold max ys (max y a)" by (rule fold_max_init)
    finally show ?thesis by simp
  next
    case False
    with Cons.prems have "x \<in> set ys" by simp
    then show ?thesis by (simp add: Cons.IH)
  qed
qed

lemma next_id_fresh: "next_id ids \<notin> set ids"
proof
  assume "next_id ids \<in> set ids"
  then have "next_id ids \<le> fold max ids 0" by (rule fold_max_ge)
  then show False by (simp add: next_id_def)
qed

lemma add_comment_eq:
  assumes "req_user r = Some u"
    and "get_object_or_404 (Post_objects d) (\<lambda>p. post_id p = i) = Inr p"
  shows "add_comment clean d r i =
     (Inr (Redirect (post_detail_url i)),
      (case (if req_POST r = [] then None else clean (querydict_get (req_POST r) ''text'')) of
         Some t \<Rightarrow>
           d\<lparr>Comments_objects := Comments_objects d @
               [\<lparr>comment_id = next_id (map comment_id (Comments_objects d)), comment_text = t,
                 comment_author = user_id u, comment_post = post_id p\<rparr>]\<rparr>
       | None \<Rightarrow> d))"
  using assms
  by (simp add: add_comment_def CommentForm_cleaned_eq Comments_insert_def Comments_blank_def
      Let_def split: option.splits)

text \<open>
  C4. When an authenticated user submits the comment form with valid text \<open>t\<close> to a
  stored post, the store gains exactly one comment row, with a fresh key, the text
  \<open>t\<close>, the submitting user as author and the post of the URL as post; the comment count
  of that post grows by one and that of every other post stays. The outcome is the same
  for any other submission of the user with the same value under \<^verbatim>\<open>text\<close>, whatever
  it holds under \<^verbatim>\<open>author\<close>, \<^verbatim>\<open>post\<close> or any other key.
\<close>

theorem add_comment_creates_one_comment:
  assumes "req_user r = Some u"
    and "get_object_or_404 (Post_objects d) (\<lambda>p. post_id p = i) = Inr p"
    and "CommentForm_cleaned clean (ModelForm (or_None (req_POST r)) None None) = Some t"
  shows "(\<exists>c. snd (add_comment clean d r i) = d\<lparr>Comments_objects := Comments_objects d @ [c]\<rparr>
            \<and> comment_author c = user_id u \<and> comment_post c = i \<and> comment_text c = t
            \<and> comment_id c \<notin> set (map comment_id (Comments_objects d)))
       \<and> length (post_comments (snd (add_comment clean d r i)) p) = length (post_comments d p) + 1
       \<and> (\<forall>q. post_id q \<noteq> i \<longrightarrow>
             post_comments (snd (add_comment clean d r i)) q = post_comments d q)
       \<and> (\<forall>r'. req_user r' = Some u \<and> req_POST r' \<noteq> []
               \<and> querydict_get (req_POST r') ''text'' = querydict_get (req_POST r) ''text''
             \<longrightarrow> add_comment clean d r' i = add_comment clean d r i)"
proof -
  have pi: "post_id p = i"
    using assms(2) objects_get_Inr_mem [of "Post_objects d" "\<lambda>p. post_id p = i" p]
    by (simp add: get_object_or_404_Inr)
  from assms(3) have ne: "req_POST r \<noteq> []"
    and cl: "clean (querydict_get (req_POST r) ''text'') = Some t"
    by (auto simp: CommentForm_cleaned_eq split: if_splits)
  let ?c = "\<lparr>comment_id = next_id (map comment_id (Comments_objects d)), comment_text = t,
             comment_author = user_id u, comment_post = post_id p\<rparr>"
  have e: "add_comment clean d r i =
      (Inr (Redirect (post_detail_url i)), d\<lparr>Comments_objects := Comments_objects d @ [?c]\<rparr>)"
    using add_comment_eq [OF assms(1) assms(2), of clean] ne cl by simp
  have a: "\<exists>c. snd (add_comment clean d r i) = d\<lparr>Comments_objects := Comments_objects d @ [c]\<rparr>
            \<and> comment_author c = user_id u \<and> comment_post c = i \<and> comment_text c = t
            \<and> comment_id c \<notin> set (map comment_id (Comments_objects d))"
    using e pi next_id_fresh [of "map comment_id (Comments_objects d)"]
    by (intro exI [where x = ?c]) simp
  have b: "length (post_comments (snd (add_comment clean d r i)) p) = length (post_comments d p) + 1"
    using e by (simp add: post_comments_def)
  have c: "\<forall>q. post_id q \<noteq> i \<longrightarrow>
             post_comments (snd (add_comment clean d r i)) q = post_comments d q"
    using e pi by (auto simp: post_comments_def)
  have "add_comment clean d r' i = add_comment clean d r i"
    if "req_user r' = Some u \<and> req_POST r' \<noteq> []
               \<and> querydict_get (req_POST r') ''text'' = querydict_get (req_POST r) ''text''"
    for r'
    using that add_comment_eq [OF _ assms(2), of r' u clean] e cl by simp
  with a b c show ?thesis by blast
qed

theorem add_comment_creates_one_comment_witness:
  "snd (add_comment required_text db0
          (post_as (Some bob) [(''text'', ''hi''), (''author'', ''1''), (''post'', ''3'')]) 1) =
     db0\<lparr>Comments_objects := [comment7,
           \<lparr>comment_id = 8, comment_text = ''hi'', comment_author = 2, comment_post = 1\<rparr>]\<rparr>
   \<and> length (post_comments (snd (add_comment required_text db0
          (post_as (Some bob) [(''text'', ''hi''), (''author'', ''1''), (''post'', ''3'')]) 1)) post1)
      = 2
   \<and> add_comment required_text db0 (post_as (Some bob) [(''text'', ''hi'')]) 1 =
      add_comment required_text db0
          (post_as (Some bob) [(''text'', ''hi''), (''author'', ''1''), (''post'', ''3'')]) 1"
proof -
  let ?r = "post_as (Some bob) [(''text'', ''hi''), (''author'', ''1''), (''post'', ''3'')]"
  let ?r' = "post_as (Some bob) [(''text'', ''hi'')]"
  have u: "req_user ?r = Some bob" by (simp add: post_as_def)
  have g: "get_object_or_404 (Post_objects db0) (\<lambda>p. post_id p = 1) = Inr post1"
    by (simp add: get_object_or_404_def objects_get_def db0_def post1_def post2_def post3_def)
  have v: "CommentForm_cleaned required_text (ModelForm (or_None (req_POST ?r)) None None)
      = Some ''hi''"
    by (simp add: CommentForm_cleaned_eq post_as_def querydict_get_def required_text_def)
  note t = add_comment_creates_one_comment [OF u g v]
  have same: "req_user ?r' = Some bob \<and> req_POST ?r' \<noteq> []
      \<and> querydict_get (req_POST ?r') ''text'' = querydict_get (req_POST ?r) ''text''"
    by (simp add: post_as_def querydict_get_def)
  have t4: "add_comment required_text db0 ?r' 1 = add_comment required_text db0 ?r 1"
    using t [THEN conjunct2, THEN conjunct2, THEN conjunct2, THEN spec, THEN mp, OF same] .
  have t2: "length (post_comments (snd (add_comment required_text db0 ?r 1)) post1) = 2"
    using t [THEN conjunct2, THEN conjunct1]
    by (simp add: post_comments_def db0_def post1_def comment7_def)
  have t1: "snd (add_comment required_text db0 ?r 1) =
     db0\<lparr>Comments_objects := [comment7,
           \<lparr>comment_id = 8, comment_text = ''hi'', comment_author = 2, comment_post = 1\<rparr>]\<rparr>"
    by (subst add_comment_eq [OF u g])
      (simp add: post_as_def querydict_get_def required_text_def
        next_id_def db0_def comment7_def bob_def post1_def)
  from t1 t2 t4 show ?thesis by (intro conjI)
qed

text \<open>
  C7. For an authenticated user and a stored post the add-comment view answers with the
  redirect to the detail view of that post in every case; when the form is not valid the
  store after the request is the store before it, and the response is that same
  redirect, which carries no form and no error.
\<close>

theorem add_comment_always_redirects:
  assumes "req_user r = Some u"
    and "get_object_or_404 (Post_objects d) (\<lambda>p. post_id p = i) = Inr p"
  shows "fst (add_comment clean d r i) = Inr (Redirect (post_detail_url i))
       \<and> (CommentForm_cleaned clean (ModelForm (or_None (req_POST r)) None None) = None
            \<longrightarrow> add_comment clean d r i = (Inr (Redirect (post_detail_url i)), d))"
  using add_comment_eq [OF assms, of clean]
  by (simp add: CommentForm_cleaned_eq)

theorem add_comment_always_redirects_witness:
  "fst (add_comment required_text db0 (post_as (Some bob) [(''text'', ''hi'')]) 1) =
     Inr (Redirect (post_detail_url 1))
   \<and> add_comment required_text db0 (post_as (Some bob) [(''text'', '''')]) 1 =
     (Inr (Redirect (post_detail_url 1)), db0)
   \<and> add_comment required_text db0 (get_as (Some bob)) 1 =
     (Inr (Redirect (post_detail_url 1)), db0)"
proof -
  have g: "get_object_or_404 (Post_objects db0) (\<lambda>p. post_id p = 1) = Inr post1"
    by (simp add: get_object_or_404_def objects_get_def db0_def post1_def post2_def post3_def)
  have u1: "req_user (post_as (Some bob) [(''text'', ''hi'')]) = Some bob"
    and u2: "req_user (post_as (Some bob) [(''text'', '''')]) = Some bob"
    and u3: "req_user (get_as (Some bob)) = Some bob"
    by (simp_all add: post_as_def get_as_def)
  have i2: "CommentForm_cleaned required_text
      (ModelForm (or_None (req_POST (post_as (Some bob) [(''text'', '''')]))) None None) = None"
    by (simp add: CommentForm_cleaned_eq post_as_def querydict_get_def required_text_def)
  have i3: "CommentForm_cleaned required_text
      (ModelForm (or_None (req_POST (get_as (Some bob)))) None None) = None"
    by (simp add: CommentForm_cleaned_eq get_as_def)
  from add_comment_always_redirects [OF u1 g, of required_text, THEN conjunct1]
    add_comment_always_redirects [OF u2 g, of required_text, THEN conjunct2, THEN mp, OF i2]
    add_comment_always_redirects [OF u3 g, of required_text, THEN conjunct2, THEN mp, OF i3]
  show ?thesis by (intro conjI)
qed

text \<open>
  C10. The add-comment view does not look at the visibility of the post. For every
  stored post, an authenticated user who is not its author and submits valid text gets
  the comment stored (the comment count of the post grows by one), also when the post is
  unpublished, is scheduled after now, or its category is unpublished, where the detail
  view answers the same user with not-found.
\<close>

theorem add_comment_ignores_visibility:
  assumes "req_user r = Some u"
    and "get_object_or_404 (Post_objects d) (\<lambda>p. post_id p = i) = Inr p"
    and "author_ne_user (author p) r"
    and "CommentForm_cleaned clean (ModelForm (or_None (req_POST r)) None None) = Some t"
  shows "add_comment clean d r i =
       (Inr (Redirect (post_detail_url i)),
        d\<lparr>Comments_objects := Comments_objects d @
            [\<lparr>comment_id = next_id (map comment_id (Comments_objects d)), comment_text = t,
              comment_author = user_id u, comment_post = i\<rparr>]\<rparr>)
     \<and> length (post_comments (snd (add_comment clean d r i)) p) = length (post_comments d p) + 1
     \<and> (\<not> is_published p \<or> now < pub_date p
          \<or> (\<exists>c. post_category d p = Inr c \<and> \<not> c_is_published c)
        \<longrightarrow> post_detail d now r i = Inl Http404)"
proof -
  have pi: "post_id p = i"
    using assms(2) objects_get_Inr_mem [of "Post_objects d" "\<lambda>p. post_id p = i" p]
    by (simp add: get_object_or_404_Inr)
  from assms(4) have ne: "req_POST r \<noteq> []"
    and cl: "clean (querydict_get (req_POST r) ''text'') = Some t"
    by (auto simp: CommentForm_cleaned_eq split: if_splits)
  have e: "add_comment clean d r i =
       (Inr (Redirect (post_detail_url i)),
        d\<lparr>Comments_objects := Comments_objects d @
            [\<lparr>comment_id = next_id (map comment_id (Comments_objects d)), comment_text = t,
              comment_author = user_id u, comment_post = i\<rparr>]\<rparr>)"
    using add_comment_eq [OF assms(1) assms(2), of clean] ne cl pi by simp
  have n: "length (post_comments (snd (add_comment clean d r i)) p) = length (post_comments d p) + 1"
    unfolding e using pi by (simp add: post_comments_def)
  have h: "post_detail d now r i = Inl Http404"
    if "\<not> is_published p \<or> now < pub_date p
          \<or> (\<exists>c. post_category d p = Inr c \<and> \<not> c_is_published c)"
    using that assms(2) assms(3) by (auto simp: post_detail_def)
  from e n h show ?thesis by blast
qed

theorem add_comment_ignores_visibility_witness:
  "add_comment required_text db0 (post_as (Some bob) [(''text'', ''hi'')]) 2 =
     (Inr (Redirect (post_detail_url 2)),
      db0\<lparr>Comments_objects := [comment7,
            \<lparr>comment_id = 8, comment_text = ''hi'', comment_author = 2, comment_post = 2\<rparr>]\<rparr>)
   \<and> \<not> is_published post2
   \<and> post_detail db0 100 (post_as (Some bob) [(''text'', ''hi'')]) 2 = Inl Http404"
proof -
  let ?r = "post_as (Some bob) [(''text'', ''hi'')]"
  have u: "req_user ?r = Some bob" by (simp add: post_as_def)
  have g: "get_object_or_404 (Post_objects db0) (\<lambda>p. post_id p = 2) = Inr post2"
    by (simp add: get_object_or_404_def objects_get_def db0_def post1_def post2_def post3_def)
  have a: "author_ne_user (author post2) ?r"
    by (simp add: author_ne_user_def post_as_def post2_def bob_def)
  have v: "CommentForm_cleaned required_text (ModelForm (or_None (req_POST ?r)) None None)
      = Some ''hi''"
    by (simp add: CommentForm_cleaned_eq post_as_def querydict_get_def required_text_def)
  have np: "\<not> is_published post2" by (simp add: post2_def)
  note t = add_comment_ignores_visibility [OF u g a v, of 100]
  have t1: "add_comment required_text db0 ?r 2 =
     (Inr (Redirect (post_detail_url 2)),
      db0\<lparr>Comments_objects := [comment7,
            \<lparr>comment_id = 8, comment_text = ''hi'', comment_author = 2, comment_post = 2\<rparr>]\<rparr>)"
    by (subst t [THEN conjunct1]) (simp add: next_id_def db0_def comment7_def bob_def)
  have t3: "post_detail db0 100 ?r 2 = Inl Http404"
    using t [THEN conjunct2, THEN conjunct2] np by blast
  from t1 np t3 show ?thesis by (intro conjI)
qed

section \<open>Creating and deleting a post\<close>

lemma PostForm_cleaned_eq:
  "PostForm_cleaned clean d (ModelForm (or_None q) (or_None fs) inst) =
     (if q = [] \<and> fs = [] then None
      else clean d inst (filter (\<lambda>kv. fst kv \<noteq> ''author'') q)
             (filter (\<lambda>kv. fst kv \<noteq> ''author'') fs))"
  by (simp add: PostForm_cleaned_def is_bound_def or_None_def form_querydict_def
      without_excluded_def PostForm_exclude_def)

lemma create_post_eq:
  assumes "req_user r = Some u"
  shows "create_post clean d r =
     (case PostForm_cleaned clean d
             (ModelForm (or_None (req_POST r)) (or_None (req_FILES r)) None) of
        Some c \<Rightarrow>
          (Inr (Redirect (profile_url (username u))),
           d\<lparr>Post_objects := Post_objects d @
               [\<lparr>post_id = next_id (map post_id (Post_objects d)), title = f_title c,
                 post_text = f_text c, pub_date = f_pub_date c,
                 is_published = f_is_published c, post_image = f_image c,
                 author = user_id u, category = f_category c\<rparr>]\<rparr>)
      | None \<Rightarrow>
          (Inr (Render ''blog/create.html'' (post_form_context
             (ModelForm (or_None (req_POST r)) (or_None (req_FILES r)) None))), d))"
  using assms
  by (simp add: create_post_def Post_insert_def construct_post_def Post_blank_def Let_def
      split: option.splits)

text \<open>
  C5. When an authenticated user creates a post, the stored row has the user of the
  session as author, whatever the submitted data hold. A second submission of the same
  user that differs from the first only in what it holds under \<^verbatim>\<open>author\<close> leaves the
  same store behind, so it stores a post with the same author.
\<close>

theorem create_post_author_from_session:
  assumes "req_user r = Some u"
  shows "(\<forall>c. PostForm_cleaned clean d
               (ModelForm (or_None (req_POST r)) (or_None (req_FILES r)) None) = Some c \<longrightarrow>
            fst (create_post clean d r) = Inr (Redirect (profile_url (username u)))
            \<and> (\<exists>p. snd (create_post clean d r) = d\<lparr>Post_objects := Post_objects d @ [p]\<rparr>
                 \<and> author p = user_id u
                 \<and> post_id p \<notin> set (map post_id (Post_objects d))))
       \<and> (PostForm_cleaned clean d
               (ModelForm (or_None (req_POST r)) (or_None (req_FILES r)) None) = None \<longrightarrow>
            snd (create_post clean d r) = d)
       \<and> (\<forall>r'. req_user r' = Some u \<and> req_FILES r' = req_FILES r
               \<and> req_POST r \<noteq> [] \<and> req_POST r' \<noteq> []
               \<and> filter (\<lambda>kv. fst kv \<noteq> ''author'') (req_POST r') =
                   filter (\<lambda>kv. fst kv \<noteq> ''author'') (req_POST r)
             \<longrightarrow> snd (create_post clean d r') = snd (create_post clean d r))"
proof (intro conjI allI impI)
  fix c
  assume v: "PostForm_cleaned clean d
               (ModelForm (or_None (req_POST r)) (or_None (req_FILES r)) None) = Some c"
  let ?p = "\<lparr>post_id = next_id (map post_id (Post_objects d)), title = f_title c,
                 post_text = f_text c, pub_date = f_pub_date c,
                 is_published = f_is_published c, post_image = f_image c,
                 author = user_id u, category = f_category c\<rparr>"
  have e: "create_post clean d r =
      (Inr (Redirect (profile_url (username u))), d\<lparr>Post_objects := Post_objects d @ [?p]\<rparr>)"
    using create_post_eq [OF assms, of clean d] v by simp
  then show "fst (create_post clean d r) = Inr (Redirect (profile_url (username u)))"
    by simp
  show "\<exists>p. snd (create_post clean d r) = d\<lparr>Post_objects := Post_objects d @ [p]\<rparr>
                 \<and> author p = user_id u
                 \<and> post_id p \<notin> set (map post_id (Post_objects d))"
    using e next_id_fresh [of "map post_id (Post_objects d)"]
    by (intro exI [where x = ?p]) simp
next
  assume "PostForm_cleaned clean d
               (ModelForm (or_None (req_POST r)) (or_None (req_FILES r)) None) = None"
  then show "snd (create_post clean d r) = d"
    using create_post_eq [OF assms, of clean d] by simp
next
  fix r' :: request
  assume a: "req_user r' = Some u \<and> req_FILES r' = req_FILES r
               \<and> req_POST r \<noteq> [] \<and> req_POST r' \<noteq> []
               \<and> filter (\<lambda>kv. fst kv \<noteq> ''author'') (req_POST r') =
                   filter (\<lambda>kv. fst kv \<noteq> ''author'') (req_POST r)"
  then have "PostForm_cleaned clean d
               (ModelForm (or_None (req_POST r')) (or_None (req_FILES r')) None) =
             PostForm_cleaned clean d
               (ModelForm (or_None (req_POST r)) (or_None (req_FILES r)) None)"
    by (simp add: PostForm_cleaned_eq)
  then show "snd (create_post clean d r') = snd (create_post clean d r)"
    using create_post_eq [OF assms, of clean d] create_post_eq [of r' u clean d] a
    by (simp split: option.splits)
qed

theorem create_post_author_from_session_witness:
  "snd (create_post simple_post_form db0
          (post_as (Some bob)
             [(''title'', ''T''), (''text'', ''hi''), (''pub_date'', ''42''), (''author'', ''1'')])) =
     db0\<lparr>Post_objects := [post1, post2, post3,
           \<lparr>post_id = 4, title = ''T'', post_text = ''hi'', pub_date = 42, is_published = False,
             post_image = None, author = 2, category = 1\<rparr>]\<rparr>
   \<and> snd (create_post simple_post_form db0
          (post_as (Some bob) [(''title'', ''T''), (''text'', ''hi''), (''pub_date'', ''42'')])) =
     snd (create_post simple_post_form db0
          (post_as (Some bob)
             [(''title'', ''T''), (''text'', ''hi''), (''pub_date'', ''42''), (''author'', ''1'')]))
   \<and> snd (create_post simple_post_form db0
          (post_as (Some bob) [(''title'', []), (''text'', ''hi''), (''pub_date'', ''42'')])) = db0"
proof -
  let ?r = "post_as (Some bob)
             [(''title'', ''T''), (''text'', ''hi''), (''pub_date'', ''42''), (''author'', ''1'')]"
  let ?r' = "post_as (Some bob) [(''title'', ''T''), (''text'', ''hi''), (''pub_date'', ''42'')]"
  let ?e = "post_as (Some bob) [(''title'', []), (''text'', ''hi''), (''pub_date'', ''42'')]"
  let ?c = "\<lparr>f_title = ''T'', f_text = ''hi'', f_pub_date = 42, f_is_published = False,
            f_image = None, f_category = 1\<rparr>"
  have u: "req_user ?r = Some bob" and u0: "req_user ?e = Some bob"
    by (simp_all add: post_as_def)
  have v: "PostForm_cleaned simple_post_form db0
      (ModelForm (or_None (req_POST ?r)) (or_None (req_FILES ?r)) None) = Some ?c"
    by (simp add: PostForm_cleaned_eq post_as_def simple_post_form_def querydict_get_def
        digits_value_def)
  have v0: "PostForm_cleaned simple_post_form db0
      (ModelForm (or_None (req_POST ?e)) (or_None (req_FILES ?e)) None) = None"
    by (simp add: PostForm_cleaned_eq post_as_def simple_post_form_def querydict_get_def)
  have same: "req_user ?r' = Some bob \<and> req_FILES ?r' = req_FILES ?r
      \<and> req_POST ?r \<noteq> [] \<and> req_POST ?r' \<noteq> []
      \<and> filter (\<lambda>kv. fst kv \<noteq> ''author'') (req_POST ?r') =
          filter (\<lambda>kv. fst kv \<noteq> ''author'') (req_POST ?r)"
    by (simp add: post_as_def)
  note t = create_post_author_from_session [OF u, of simple_post_form db0]
  note t0 = create_post_author_from_session [OF u0, of simple_post_form db0]
  have t1: "snd (create_post simple_post_form db0 ?r) =
     db0\<lparr>Post_objects := [post1, post2, post3,
           \<lparr>post_id = 4, title = ''T'', post_text = ''hi'', pub_date = 42, is_published = False,
             post_image = None, author = 2, category = 1\<rparr>]\<rparr>"
    by (subst create_post_eq [OF u], subst v)
      (simp add: next_id_def db0_def post1_def post2_def post3_def bob_def)
  have t2: "snd (create_post simple_post_form db0 ?r') = snd (create_post simple_post_form db0 ?r)"
    using t [THEN conjunct2, THEN conjunct2, THEN spec, THEN mp, OF same] .
  have t3: "snd (create_post simple_post_form db0 ?e) = db0"
    using t0 [THEN conjunct2, THEN conjunct1, THEN mp, OF v0] .
  from t1 t2 t3 show ?thesis by (intro conjI)
qed

lemma Post_delete_get:
  "get_object_or_404 (Post_objects (Post_delete d p)) (\<lambda>q. post_id q = post_id p) = Inl Http404"
  by (rule get_object_or_404_none) (simp add: Post_delete_def)

text \<open>
  C8. For a stored post and its authenticated author, a GET request to the delete-post
  view renders the confirmation form of the post and leaves the store as it is; a POST
  request removes the post (a later lookup of its identifier is not-found, the other
  posts stay) and redirects to the profile page of the author.
\<close>

theorem delete_post_confirm_then_commit:
  assumes "req_user r = Some u"
    and "get_object_or_404 (Post_objects d) (\<lambda>p. post_id p = i) = Inr p"
    and "author p = user_id u"
  shows "(req_method r = ''GET'' \<longrightarrow>
            delete_post d r i =
              (Inr (Render ''blog/create.html''
                     (post_form_context (ModelForm None None (Some p)))), d))
       \<and> (req_method r = ''POST'' \<longrightarrow>
            fst (delete_post d r i) = Inr (Redirect (profile_url (username u)))
            \<and> Post_objects (snd (delete_post d r i)) =
                filter (\<lambda>q. post_id q \<noteq> i) (Post_objects d)
            \<and> p \<notin> set (Post_objects (snd (delete_post d r i)))
            \<and> get_object_or_404 (Post_objects (snd (delete_post d r i))) (\<lambda>q. post_id q = i)
                = Inl Http404)"
proof -
  have pi: "post_id p = i"
    using assms(2) objects_get_Inr_mem [of "Post_objects d" "\<lambda>p. post_id p = i" p]
    by (simp add: get_object_or_404_Inr)
  have na: "\<not> author_ne_user (author p) r"
    using assms(1) assms(3) by (simp add: author_ne_user_def)
  have g: "req_method r = ''GET'' \<Longrightarrow> delete_post d r i =
              (Inr (Render ''blog/create.html''
                     (post_form_context (ModelForm None None (Some p)))), d)"
    using assms(1) assms(2) na by (simp add: delete_post_def)
  have e: "req_method r = ''POST'' \<Longrightarrow> delete_post d r i =
              (Inr (Redirect (profile_url (username u))), Post_delete d p)"
    using assms(1) assms(2) na by (simp add: delete_post_def)
  have "fst (delete_post d r i) = Inr (Redirect (profile_url (username u)))
            \<and> Post_objects (snd (delete_post d r i)) =
                filter (\<lambda>q. post_id q \<noteq> i) (Post_objects d)
            \<and> p \<notin> set (Post_objects (snd (delete_post d r i)))
            \<and> get_object_or_404 (Post_objects (snd (delete_post d r i))) (\<lambda>q. post_id q = i)
                = Inl Http404"
    if m: "req_method r = ''POST''"
    using Post_delete_get [of d p] pi by (simp add: e [OF m] Post_delete_def)
  with g show ?thesis by blast
qed

theorem delete_post_confirm_then_commit_witness:
  "delete_post db0 (get_as (Some alice)) 1 =
     (Inr (Render ''blog/create.html'' (post_form_context (ModelForm None None (Some post1)))), db0)
   \<and> fst (delete_post db0 (post_as (Some alice) []) 1) = Inr (Redirect (profile_url ''alice''))
   \<and> Post_objects (snd (delete_post db0 (post_as (Some alice) []) 1)) = [post2, post3]"
proof -
  have g: "get_object_or_404 (Post_objects db0) (\<lambda>p. post_id p = 1) = Inr post1"
    by (simp add: get_object_or_404_def objects_get_def db0_def post1_def post2_def post3_def)
  have a: "author post1 = user_id alice" by (simp add: post1_def alice_def)
  have u1: "req_user (get_as (Some alice)) = Some alice"
    and u2: "req_user (post_as (Some alice) []) = Some alice"
    by (simp_all add: get_as_def post_as_def)
  have m1: "req_method (get_as (Some alice)) = ''GET''"
    and m2: "req_method (post_as (Some alice) []) = ''POST''"
    by (simp_all add: get_as_def post_as_def)
  have f: "filter (\<lambda>q. post_id q \<noteq> 1) (Post_objects db0) = [post2, post3]"
    by (simp add: db0_def post1_def post2_def post3_def)
  have n: "username alice = ''alice''" by (simp add: alice_def)
  note t1 = delete_post_confirm_then_commit [OF u1 g a, THEN conjunct1, THEN mp, OF m1]
  note t2 = delete_post_confirm_then_commit [OF u2 g a, THEN conjunct2, THEN mp, OF m2]
  from t1 t2 [THEN conjunct1] t2 [THEN conjunct2, THEN conjunct1]
  show ?thesis unfolding f n by (intro conjI)
qed

end
